theory Spec2Isabelle
  imports Complex_Main
begin

section \<open>Data model of \<open>main.js\<close>\<close>

text \<open>
  A numeric cell of the CSV file as \<open>loadData\<close> parses it: the empty string becomes
  \<open>null\<close>, any other text goes through unary plus and is a number or \<open>NaN\<close>.
  A finite number is given by its exact value, a rational (for a cell, the value of the
  double that unary plus returns, see \<open>decimal\<close> below); cells that parse to an
  infinity are outside the model.
\<close>

datatype cell = Null | NaN | Num rat

text \<open>One parsed row; \<open>date\<close> is the time value of the \<open>Date\<close> object in milliseconds
  (a date text that does not parse, an invalid \<open>Date\<close>, is outside the model).\<close>

record row =
  state :: string
  year :: int
  month :: int
  NDVI :: cell
  LST_Day :: cell
  LST_Night :: cell
  ET :: cell
  date :: int

text \<open>Property access \<open>d[field]\<close>; a name that is no column reads \<open>undefined\<close>, which
  every test of the program treats like \<open>null\<close>.\<close>

definition getField :: "row \<Rightarrow> string \<Rightarrow> cell" where
  "getField d f =
     (if f = ''NDVI'' then NDVI d
      else if f = ''LST_Day'' then LST_Day d
      else if f = ''LST_Night'' then LST_Night d
      else if f = ''ET'' then ET d
      else Null)"

text \<open>The keys of \<open>VAR_CONFIG\<close> and its entries (the two display labels play no role in
  the computations and are left out).\<close>

datatype var_key = ndvi | lstDay | lstNight | et

record var_config =
  field :: string
  colorType :: string

fun VAR_CONFIG :: "var_key \<Rightarrow> var_config" where
  "VAR_CONFIG ndvi = \<lparr>field = ''NDVI'', colorType = ''greens''\<rparr>"
| "VAR_CONFIG lstDay = \<lparr>field = ''LST_Day'', colorType = ''temp''\<rparr>"
| "VAR_CONFIG lstNight = \<lparr>field = ''LST_Night'', colorType = ''temp''\<rparr>"
| "VAR_CONFIG et = \<lparr>field = ''ET'', colorType = ''blues''\<rparr>"

text \<open>\<open>Object.entries(VAR_CONFIG)\<close>: the keys in insertion order.\<close>

definition VAR_CONFIG_keys :: "var_key list" where
  "VAR_CONFIG_keys = [ndvi, lstDay, lstNight, et]"

section \<open>Double-precision arithmetic\<close>

text \<open>
  The result of an arithmetic operation of JavaScript: a finite double, given by its
  exact value (the two zeros are not told apart), an infinity or \<open>NaN\<close>.
\<close>

datatype double = Finite rat | PlusInfinity | MinusInfinity | NotANumber

text \<open>
  The binary exponent of a positive number \<open>x\<close>, the floor of its logarithm to base
  two: for \<open>x \<ge> 1\<close> the number of halvings that keep it at least one, for \<open>x < 1\<close>
  minus the number of doublings that bring it up to one.
\<close>

function log2_down :: "rat \<Rightarrow> nat" where
  "log2_down x = (if x < 2 then 0 else Suc (log2_down (x / 2)))"
  by pat_completeness auto
termination
proof (relation "measure (\<lambda>x. nat \<lfloor>x\<rfloor>)")
  show "wf (measure (\<lambda>x::rat. nat \<lfloor>x\<rfloor>))" by simp
next
  fix x :: rat
  assume "\<not> x < 2"
  then have "x / 2 + 1 \<le> x" by simp
  then have "\<lfloor>x / 2\<rfloor> + 1 \<le> \<lfloor>x\<rfloor>" by linarith
  moreover have "0 \<le> \<lfloor>x / 2\<rfloor>" using \<open>\<not> x < 2\<close> by simp
  ultimately have "nat \<lfloor>x / 2\<rfloor> < nat \<lfloor>x\<rfloor>" by linarith
  then show "(x / 2, x) \<in> measure (\<lambda>x. nat \<lfloor>x\<rfloor>)" by simp
qed

declare log2_down.simps [simp del]

function log2_up :: "rat \<Rightarrow> nat" where
  "log2_up x = (if x \<le> 0 \<or> 1 \<le> x then 0 else Suc (log2_up (x * 2)))"
  by pat_completeness auto
termination
proof (relation "measure (\<lambda>x. nat \<lceil>1 / x\<rceil>)")
  show "wf (measure (\<lambda>x::rat. nat \<lceil>1 / x\<rceil>))" by simp
next
  fix x :: rat
  assume a: "\<not> (x \<le> 0 \<or> 1 \<le> x)"
  then have x: "0 < x" "x < 1" by auto
  define y where "y = 1 / x"
  have y: "1 < y" using x by (simp add: y_def)
  have eq: "1 / (x * 2) = y / 2" by (simp add: y_def)
  have "\<lceil>y / 2\<rceil> < \<lceil>y\<rceil>"
  proof (cases "y \<le> 2")
    case True
    then have "\<lceil>y / 2\<rceil> \<le> 1" by (simp add: ceiling_le_iff)
    moreover have "1 < \<lceil>y\<rceil>" using y by (simp add: less_ceiling_iff)
    ultimately show ?thesis by linarith
  next
    case False
    then have "y / 2 + 1 \<le> y" by simp
    then show ?thesis by linarith
  qed
  moreover have "0 < \<lceil>y\<rceil>" using y by (simp add: less_ceiling_iff)
  ultimately have "nat \<lceil>y / 2\<rceil> < nat \<lceil>y\<rceil>" by linarith
  then show "(x * 2, x) \<in> measure (\<lambda>x. nat \<lceil>1 / x\<rceil>)"
    unfolding in_measure eq y_def [symmetric] .
qed

declare log2_up.simps [simp del]

definition floor_log2 :: "rat \<Rightarrow> int" where
  "floor_log2 x = (if 1 \<le> x then int (log2_down x) else - int (log2_up x))"

text \<open>Rounding to the nearest integer, a tie going to the even one.\<close>

definition round_half_even :: "rat \<Rightarrow> int" where
  "round_half_even x =
     (let f = \<lfloor>x\<rfloor>; d = x - of_int f
      in if d < 1 / 2 then f else if 1 / 2 < d then f + 1 else if even f then f else f + 1)"

text \<open>
  IEEE 754 rounding of an exact result to binary64, to nearest with ties to even: the
  result is a multiple of the quantum \<open>2 powi (e - 52)\<close>, where \<open>e\<close> is the binary
  exponent of the number and at least \<open>-1022\<close> (below that the doubles are subnormal,
  with the one quantum \<open>2 powi (- 1074)\<close>); a result that reaches \<open>2 ^ 1024\<close>
  overflows to an infinity.
\<close>

definition overflow_bound :: rat where
  "overflow_bound = 2 ^ 1024"

definition round_double :: "rat \<Rightarrow> double" where
  "round_double x =
     (if x = 0 then Finite 0
      else
        (let e = max (floor_log2 \<bar>x\<bar>) (- 1022);
             q = 2 powi (e - 52);
             r = of_int (round_half_even (x / q)) * q
         in if overflow_bound \<le> r then PlusInfinity
            else if r \<le> - overflow_bound then MinusInfinity
            else Finite r))"

text \<open>The double a decimal text denotes (unary plus on a cell, a number literal), for a
  value in the finite range.\<close>

definition decimal :: "rat \<Rightarrow> rat" where
  "decimal q = (case round_double q of Finite r \<Rightarrow> r | _ \<Rightarrow> q)"

text \<open>Addition \<open>a + b\<close> of two numbers.\<close>

fun js_add :: "double \<Rightarrow> double \<Rightarrow> double" where
  "js_add (Finite a) (Finite b) = round_double (a + b)"
| "js_add NotANumber _ = NotANumber"
| "js_add _ NotANumber = NotANumber"
| "js_add PlusInfinity MinusInfinity = NotANumber"
| "js_add MinusInfinity PlusInfinity = NotANumber"
| "js_add PlusInfinity _ = PlusInfinity"
| "js_add _ PlusInfinity = PlusInfinity"
| "js_add MinusInfinity _ = MinusInfinity"
| "js_add _ MinusInfinity = MinusInfinity"

text \<open>Division \<open>a / n\<close> by a positive whole number (a count, which is exact).\<close>

fun js_div_count :: "double \<Rightarrow> nat \<Rightarrow> double" where
  "js_div_count (Finite a) n = round_double (a / of_nat n)"
| "js_div_count d n = d"

section \<open>The d3 array helpers the program calls\<close>

text \<open>
  \<open>d3.mean(values, valueof)\<close>: one pass keeping \<open>count\<close> and \<open>sum\<close> (here \<open>sm\<close>);
  a value that is \<open>null\<close>, \<open>undefined\<close> or \<open>NaN\<close> is skipped; the result is
  \<open>sum / count\<close>, or \<open>undefined\<close> (here \<open>None\<close>) when nothing was counted. Each
  \<open>sum += value\<close> and the final quotient are rounded to a double.
\<close>

fun mean_loop :: "('a \<Rightarrow> cell) \<Rightarrow> 'a list \<Rightarrow> nat \<times> double \<Rightarrow> nat \<times> double" where
  "mean_loop valueof [] (count, sm) = (count, sm)"
| "mean_loop valueof (v # vs) (count, sm) =
     (case valueof v of
        Num x \<Rightarrow> mean_loop valueof vs (count + 1, js_add sm (Finite x))
      | _ \<Rightarrow> mean_loop valueof vs (count, sm))"

definition d3_mean :: "('a \<Rightarrow> cell) \<Rightarrow> 'a list \<Rightarrow> double option" where
  "d3_mean valueof values =
     (case mean_loop valueof values (0, Finite 0) of
        (count, sm) \<Rightarrow> if count \<noteq> 0 then Some (js_div_count sm count) else None)"

text \<open>
  Grouping as \<open>d3.group\<close>, \<open>d3.rollup\<close> and \<open>d3.rollups\<close> do it: the values are visited in
  order; a value whose key is already in the map is pushed onto that key's group, a
  new key is added at the end. The map keeps insertion order, so it is an association
  list here, and \<open>Map.get\<close> is \<open>map_of\<close>.
\<close>

fun group_push :: "'k \<Rightarrow> 'a \<Rightarrow> ('k \<times> 'a list) list \<Rightarrow> ('k \<times> 'a list) list" where
  "group_push k v [] = [(k, [v])]"
| "group_push k v ((k', g) # groups) =
     (if k' = k then (k', g @ [v]) # groups else (k', g) # group_push k v groups)"

fun group_loop :: "('a \<Rightarrow> 'k) \<Rightarrow> 'a list \<Rightarrow> ('k \<times> 'a list) list \<Rightarrow> ('k \<times> 'a list) list" where
  "group_loop keyof [] groups = groups"
| "group_loop keyof (v # vs) groups = group_loop keyof vs (group_push (keyof v) v groups)"

definition d3_group :: "'a list \<Rightarrow> ('a \<Rightarrow> 'k) \<Rightarrow> ('k \<times> 'a list) list" where
  "d3_group values keyof = group_loop keyof values []"

definition d3_rollups :: "'a list \<Rightarrow> ('a list \<Rightarrow> 'b) \<Rightarrow> ('a \<Rightarrow> 'k) \<Rightarrow> ('k \<times> 'b) list" where
  "d3_rollups values reduce keyof = map (\<lambda>(k, g). (k, reduce g)) (d3_group values keyof)"

text \<open>\<open>d3.rollup\<close> returns the same entries as a map.\<close>

definition d3_rollup :: "'a list \<Rightarrow> ('a list \<Rightarrow> 'b) \<Rightarrow> ('a \<Rightarrow> 'k) \<Rightarrow> ('k \<times> 'b) list" where
  "d3_rollup values reduce keyof = d3_rollups values reduce keyof"

section \<open>The aggregator\<close>

text \<open>
  The map \<open>valuesByState\<close> that \<open>updateMap\<close> builds, with the globals it reads
  (\<open>modisData\<close>, \<open>currentVar\<close>, \<open>currentYear\<close>, \<open>currentMonth\<close>) as arguments. A value
  \<open>None\<close> is an entry whose value is \<open>undefined\<close>.
\<close>

definition valuesByState ::
  "row list \<Rightarrow> var_key \<Rightarrow> int \<Rightarrow> int \<Rightarrow> (string \<times> double option) list" where
  "valuesByState modisData currentVar currentYear currentMonth =
     (let cfg = VAR_CONFIG currentVar in
      d3_rollup
        (filter (\<lambda>d. year d = currentYear \<and> month d = currentMonth) modisData)
        (\<lambda>v. d3_mean (\<lambda>d. getField d (field cfg)) v)
        (\<lambda>d. state d))"

text \<open>A point of the series; \<open>pvalue = None\<close> is \<open>undefined\<close>.\<close>

record point =
  pdate :: int
  pvalue :: "double option"

text \<open>The truth value JavaScript gives \<open>stateName\<close>: \<open>null\<close> and the empty string are
  falsy.\<close>

fun truthy :: "string option \<Rightarrow> bool" where
  "truthy None = False"
| "truthy (Some s) = (s \<noteq> [])"

text \<open>The predicate of the first filter of \<open>buildSeriesForState\<close>:
  \<open>stateName ? d.state === stateName : true\<close>.\<close>

definition stateFilter :: "string option \<Rightarrow> row \<Rightarrow> bool" where
  "stateFilter stateName d = (if truthy stateName then Some (state d) = stateName else True)"

text \<open>\<open>byDate\<close> of \<open>buildSeriesForState\<close>, before the final filter and sort.\<close>

definition byDate :: "row list \<Rightarrow> var_key \<Rightarrow> string option \<Rightarrow> point list" where
  "byDate modisData currentVar stateName =
     (let cfg = VAR_CONFIG currentVar;
          fld = field cfg;
          filtered = filter (\<lambda>d. stateFilter stateName d) modisData
      in map (\<lambda>(timeMs, val). \<lparr>pdate = timeMs, pvalue = val\<rparr>)
           (d3_rollups filtered (\<lambda>v. d3_mean (\<lambda>d. getField d fld) v) (\<lambda>d. date d)))"

text \<open>The final filter keeps a point whose value is neither \<open>undefined\<close> nor \<open>NaN\<close>.
  \<open>Array.prototype.sort\<close> is stable; with the comparator \<open>a.date - b.date\<close> it is
  the stable sort on the time value.\<close>

definition buildSeriesForState :: "row list \<Rightarrow> var_key \<Rightarrow> string option \<Rightarrow> point list" where
  "buildSeriesForState modisData currentVar stateName =
     sort_key pdate
       (filter (\<lambda>d. pvalue d \<noteq> None \<and> pvalue d \<noteq> Some NotANumber)
          (byDate modisData currentVar stateName))"

section \<open>The statistics engine\<close>

text \<open>
  \<open>d3.min(values)\<close> and \<open>d3.max(values)\<close>: one pass; \<open>null\<close> and \<open>NaN\<close> are skipped,
  and the result of an empty pass is \<open>undefined\<close> (\<open>None\<close>).
\<close>

fun min_loop :: "cell list \<Rightarrow> rat option \<Rightarrow> rat option" where
  "min_loop [] m = m"
| "min_loop (Num x # vs) None = min_loop vs (Some x)"
| "min_loop (Num x # vs) (Some m) = min_loop vs (if m > x then Some x else Some m)"
| "min_loop (_ # vs) m = min_loop vs m"

definition d3_min :: "cell list \<Rightarrow> rat option" where
  "d3_min values = min_loop values None"

fun max_loop :: "cell list \<Rightarrow> rat option \<Rightarrow> rat option" where
  "max_loop [] m = m"
| "max_loop (Num x # vs) None = max_loop vs (Some x)"
| "max_loop (Num x # vs) (Some m) = max_loop vs (if m < x then Some x else Some m)"
| "max_loop (_ # vs) m = max_loop vs m"

definition d3_max :: "cell list \<Rightarrow> rat option" where
  "d3_max values = max_loop values None"

text \<open>
  \<open>Math.floor(Math.log10(step))\<close> for a positive step, computed exactly:
  for \<open>step \<ge> 1\<close> the number of times it can be divided by ten before it drops
  below ten, for \<open>step < 1\<close> minus the number of times it has to be multiplied by ten
  to reach one.
\<close>

function log10_down :: "rat \<Rightarrow> nat" where
  "log10_down x = (if x < 10 then 0 else Suc (log10_down (x / 10)))"
  by pat_completeness auto
termination
proof (relation "measure (\<lambda>x. nat \<lfloor>x\<rfloor>)")
  show "wf (measure (\<lambda>x::rat. nat \<lfloor>x\<rfloor>))" by simp
next
  fix x :: rat
  assume "\<not> x < 10"
  then have "x / 10 + 1 \<le> x" by simp
  then have "\<lfloor>x / 10\<rfloor> + 1 \<le> \<lfloor>x\<rfloor>" by linarith
  moreover have "0 \<le> \<lfloor>x / 10\<rfloor>" using \<open>\<not> x < 10\<close> by simp
  ultimately have "nat \<lfloor>x / 10\<rfloor> < nat \<lfloor>x\<rfloor>" by linarith
  then show "(x / 10, x) \<in> measure (\<lambda>x. nat \<lfloor>x\<rfloor>)" by simp
qed

declare log10_down.simps [simp del]

function log10_up :: "rat \<Rightarrow> nat" where
  "log10_up x = (if x \<le> 0 \<or> 1 \<le> x then 0 else Suc (log10_up (x * 10)))"
  by pat_completeness auto
termination
proof (relation "measure (\<lambda>x. nat \<lceil>1 / x\<rceil>)")
  show "wf (measure (\<lambda>x::rat. nat \<lceil>1 / x\<rceil>))" by simp
next
  fix x :: rat
  assume a: "\<not> (x \<le> 0 \<or> 1 \<le> x)"
  then have x: "0 < x" "x < 1" by auto
  define y where "y = 1 / x"
  have y: "1 < y" using x by (simp add: y_def)
  have eq: "1 / (x * 10) = y / 10" by (simp add: y_def)
  have "\<lceil>y / 10\<rceil> < \<lceil>y\<rceil>"
  proof (cases "y \<le> 10")
    case True
    then have "\<lceil>y / 10\<rceil> \<le> 1" by (simp add: ceiling_le_iff)
    moreover have "1 < \<lceil>y\<rceil>" using y by (simp add: less_ceiling_iff)
    ultimately show ?thesis by linarith
  next
    case False
    then have "y / 10 + 1 \<le> y" by simp
    then show ?thesis by linarith
  qed
  moreover have "0 < \<lceil>y\<rceil>" using y by (simp add: less_ceiling_iff)
  ultimately have "nat \<lceil>y / 10\<rceil> < nat \<lceil>y\<rceil>" by linarith
  then show "(x * 10, x) \<in> measure (\<lambda>x. nat \<lceil>1 / x\<rceil>)"
    unfolding in_measure eq y_def [symmetric] .
qed

declare log10_up.simps [simp del]

definition floor_log10 :: "rat \<Rightarrow> int" where
  "floor_log10 x = (if 1 \<le> x then int (log10_down x) else - int (log10_up x))"

text \<open>\<open>Math.round\<close>: the nearest integer, a half going up.\<close>

definition Math_round :: "rat \<Rightarrow> int" where
  "Math_round x = \<lfloor>x + 1 / 2\<rfloor>"

text \<open>
  \<open>tickSpec(start, stop, count)\<close> of d3-array, which \<open>d3.ticks\<close> calls with
  \<open>start < stop\<close> and \<open>count > 0\<close>. The tests \<open>error >= Math.sqrt(50)\<close>,
  \<open>Math.sqrt(10)\<close> and \<open>Math.sqrt(2)\<close> are made on the squares. A negative \<open>inc\<close>
  tells the caller to divide by it. The call is repeated with twice the count when
  no tick fits and \<open>0.5 <= count < 2\<close>, which for a whole count is \<open>count = 1\<close>.
\<close>

function tickSpec :: "rat \<Rightarrow> rat \<Rightarrow> nat \<Rightarrow> int \<times> int \<times> rat" where
  "tickSpec start stop count =
     (let step = (stop - start) / of_nat count;
          power = floor_log10 step;
          error = step / (10 powi power);
          factor = (if 50 \<le> error * error then 10
                    else if 10 \<le> error * error then 5
                    else if 2 \<le> error * error then 2 else (1::rat));
          r = (if power < 0 then
                 (let inc = (10 powi (- power)) / factor;
                      i1 = Math_round (start * inc);
                      i2 = Math_round (stop * inc);
                      i1 = (if of_int i1 / inc < start then i1 + 1 else i1);
                      i2 = (if of_int i2 / inc > stop then i2 - 1 else i2)
                  in (i1, i2, - inc))
               else
                 (let inc = (10 powi power) * factor;
                      i1 = Math_round (start / inc);
                      i2 = Math_round (stop / inc);
                      i1 = (if of_int i1 * inc < start then i1 + 1 else i1);
                      i2 = (if of_int i2 * inc > stop then i2 - 1 else i2)
                  in (i1, i2, inc)))
      in if fst (snd r) < fst r \<and> count = 1 then tickSpec start stop (count * 2) else r)"
  by pat_completeness auto
termination
  by (relation "measure (\<lambda>(start, stop, count). if count = 1 then 1 else 0)") auto

declare tickSpec.simps [simp del]

text \<open>
  \<open>d3.ticks(start, stop, count)\<close>. An argument \<open>None\<close> is \<open>undefined\<close>, which unary plus
  turns into \<open>NaN\<close>; every comparison with it is false and the result is the empty
  array.
\<close>

definition d3_ticks :: "rat option \<Rightarrow> rat option \<Rightarrow> nat \<Rightarrow> rat list" where
  "d3_ticks start' stop' count =
     (case (start', stop') of
        (Some start, Some stop) \<Rightarrow>
          if \<not> count > 0 then []
          else if start = stop then [start]
          else
            (let reverse = stop < start;
                 (i1, i2, inc) = (if reverse then tickSpec stop start count
                                  else tickSpec start stop count)
             in if \<not> i2 \<ge> i1 then []
                else
                  (let n = nat (i2 - i1 + 1)
                   in if reverse then
                        (if inc < 0 then map (\<lambda>i. of_int (i2 - int i) / (- inc)) [0..<n]
                         else map (\<lambda>i. of_int (i2 - int i) * inc) [0..<n])
                      else
                        (if inc < 0 then map (\<lambda>i. of_int (i1 + int i) / (- inc)) [0..<n]
                         else map (\<lambda>i. of_int (i1 + int i) * inc) [0..<n])))
      | _ \<Rightarrow> [])"

text \<open>
  Colours: a literal of the program, or entry \<open>i\<close> of one of the seven-colour
  schemes of d3-scale-chromatic (\<open>d3.schemeGreens[7][i]\<close> and so on).
\<close>

datatype color = Hex string | schemeGreens7 nat | schemeBlues7 nat | schemeGreys7 nat

text \<open>\<open>scheme[7].slice(1)\<close>: the entries 1 to 6.\<close>

definition slice1 :: "(nat \<Rightarrow> color) \<Rightarrow> color list" where
  "slice1 scheme = map scheme [1..<7]"

text \<open>
  \<open>bisectRight(a, x, lo, hi)\<close> of d3-array, for a number \<open>x\<close>: binary search for the
  first position whose entry is greater than \<open>x\<close>.
\<close>

function bisectRight :: "rat list \<Rightarrow> rat \<Rightarrow> nat \<Rightarrow> nat \<Rightarrow> nat" where
  "bisectRight a x lo hi =
     (if lo < hi then
        (let mid = (lo + hi) div 2
         in if a ! mid \<le> x then bisectRight a x (mid + 1) hi else bisectRight a x lo mid)
      else lo)"
  by pat_completeness auto
termination
  by (relation "measure (\<lambda>(a, x, lo, hi). hi - lo)") auto

declare bisectRight.simps [simp del]

text \<open>
  \<open>d3.scaleThreshold().domain(t).range(colors)\<close>: both setters store their array and
  set \<open>n = Math.min(domain.length, range.length - 1)\<close>. Applied to a number the scale
  returns \<open>range[bisect(domain, x, 0, n)]\<close>, which is \<open>undefined\<close> (\<open>None\<close>) past the
  end of \<open>range\<close>.
\<close>

record threshold_scale =
  sdomain :: "rat list"
  srange :: "color list"
  sn :: int

definition scaleThreshold :: "rat list \<Rightarrow> color list \<Rightarrow> threshold_scale" where
  "scaleThreshold t colors =
     \<lparr>sdomain = t, srange = colors,
      sn = min (int (length t)) (int (length colors) - 1)\<rparr>"

text \<open>The bin a value falls in: the index into \<open>range\<close>.\<close>

definition scale_bin :: "threshold_scale \<Rightarrow> rat \<Rightarrow> nat" where
  "scale_bin sc x = bisectRight (sdomain sc) x 0 (nat (sn sc))"

definition scale_apply :: "threshold_scale \<Rightarrow> rat \<Rightarrow> color option" where
  "scale_apply sc x =
     (let i = scale_bin sc x in if i < length (srange sc) then Some (srange sc ! i) else None)"

text \<open>The object stored in \<open>varStats[key]\<close>.\<close>

record var_stats =
  min_val :: "rat option"
  max_val :: "rat option"
  thresholds :: "rat list"
  colors :: "color list"
  scale :: threshold_scale

text \<open>The body of the \<open>forEach\<close> in \<open>computeVarStats\<close> for one entry of \<open>VAR_CONFIG\<close>.\<close>

definition computeVarStats_entry :: "row list \<Rightarrow> var_config \<Rightarrow> var_stats" where
  "computeVarStats_entry modisData cfg =
     (let vals = filter (\<lambda>v. v \<noteq> Null \<and> v \<noteq> NaN) (map (\<lambda>d. getField d (field cfg)) modisData);
          mn = d3_min vals;
          mx = d3_max vals;
          t = d3_ticks mn mx 5;
          cs = (if colorType cfg = ''greens'' then slice1 schemeGreens7
                else if colorType cfg = ''blues'' then slice1 schemeBlues7
                else if colorType cfg = ''temp'' then
                  [Hex ''#1d4ed8'', Hex ''#2563eb'', Hex ''#38bdf8'',
                   Hex ''#facc15'', Hex ''#fb923c'', Hex ''#ef4444'']
                else slice1 schemeGreys7);
          sc = scaleThreshold t cs
      in \<lparr>min_val = mn, max_val = mx, thresholds = t, colors = cs, scale = sc\<rparr>)"

text \<open>
  \<open>computeVarStats\<close>: the global \<open>varStats\<close> (a map from key to stats object, empty at
  start) gets one entry for each key of \<open>VAR_CONFIG\<close>.
\<close>

definition computeVarStats :: "row list \<Rightarrow> (var_key \<rightharpoonup> var_stats) \<Rightarrow> (var_key \<rightharpoonup> var_stats)" where
  "computeVarStats modisData varStats =
     fold (\<lambda>key vs. vs(key \<mapsto> computeVarStats_entry modisData (VAR_CONFIG key)))
       VAR_CONFIG_keys varStats"

text \<open>
  The fill \<open>updateMap\<close> gives the state \<open>name\<close>, once it has found the stats object of
  the current variable: the dark default when the lookup in \<open>valuesByState\<close> is
  \<open>undefined\<close> (no entry, or an entry without a value) or \<open>NaN\<close>, the colour of the
  scale otherwise. For an infinite mean every test \<open>a[mid] <= x\<close> of the search has
  the same outcome, so that it ends at \<open>n\<close> for \<open>Infinity\<close> and at \<open>0\<close> for
  \<open>-Infinity\<close>.
\<close>

definition range_at :: "threshold_scale \<Rightarrow> nat \<Rightarrow> color option" where
  "range_at sc i = (if i < length (srange sc) then Some (srange sc ! i) else None)"

definition mapFill ::
  "var_stats \<Rightarrow> (string \<times> double option) list \<Rightarrow> string \<Rightarrow> color option" where
  "mapFill stats vbs name =
     (case map_of vbs name of
        None \<Rightarrow> Some (Hex ''#020617'')
      | Some None \<Rightarrow> Some (Hex ''#020617'')
      | Some (Some NotANumber) \<Rightarrow> Some (Hex ''#020617'')
      | Some (Some (Finite v)) \<Rightarrow> scale_apply (scale stats) v
      | Some (Some PlusInfinity) \<Rightarrow> range_at (scale stats) (nat (sn (scale stats)))
      | Some (Some MinusInfinity) \<Rightarrow> range_at (scale stats) 0)"

section \<open>Notions of the specification and example data\<close>

text \<open>The non-missing values of a list of cells, and their arithmetic mean as the
  specification words it (no mean for an empty list).\<close>

definition non_missing :: "cell list \<Rightarrow> rat list" where
  "non_missing cs = concat (map (\<lambda>c. case c of Num x \<Rightarrow> [x] | _ \<Rightarrow> []) cs)"

definition arithmetic_mean :: "rat list \<Rightarrow> rat option" where
  "arithmetic_mean xs = (if xs = [] then None else Some (sum_list xs / of_nat (length xs)))"

text \<open>The mean in double precision: the values are added up from the left, each sum
  rounded, and the last sum is divided by their number.\<close>

definition double_sum :: "rat list \<Rightarrow> double" where
  "double_sum xs = foldl (\<lambda>s x. js_add s (Finite x)) (Finite 0) xs"

definition double_mean :: "rat list \<Rightarrow> double option" where
  "double_mean xs = (if xs = [] then None else Some (js_div_count (double_sum xs) (length xs)))"

text \<open>A row that has a value (or none) for NDVI only, for the examples.\<close>

definition ndvi_row :: "string \<Rightarrow> int \<Rightarrow> int \<Rightarrow> cell \<Rightarrow> int \<Rightarrow> row" where
  "ndvi_row s y m v t =
     \<lparr>state = s, year = y, month = m, NDVI = v, LST_Day = Null, LST_Night = Null, ET = Null,
      date = t\<rparr>"

section \<open>Double-precision arithmetic on examples\<close>

text \<open>The overflow bound as a numeral, for evaluation.\<close>

lemma overflow_bound_numeral [code]:
  "overflow_bound = 179769313486231590772930519078902473361797697894230657273430081157732675805500963132708477322407536021120113879871393357658789768814416622492847430639474124377767893424865485276302219601246094119453082952085005768838150682342462881473913110540827237163350510684586298239947245938479716304835356329624224137216"
  by (simp add: overflow_bound_def)

text \<open>The model gives the well-known result of double arithmetic: \<open>0.1 + 0.2\<close> is
  \<open>0.30000000000000004\<close>, one quantum above the double \<open>0.3\<close>.\<close>

lemma js_add_tenths:
  "js_add (Finite (decimal (1 / 10))) (Finite (decimal (2 / 10)))
     = Finite (decimal (3 / 10) + 1 / 2 ^ 54)"
  by code_simp

section \<open>Properties of the d3 helpers\<close>

subsection \<open>The mean\<close>

lemma non_missing_simps [simp]:
  "non_missing [] = []"
  "non_missing (Num x # cs) = x # non_missing cs"
  "non_missing (Null # cs) = non_missing cs"
  "non_missing (NaN # cs) = non_missing cs"
  by (simp_all add: non_missing_def)

lemma mean_loop_eq:
  "mean_loop f vs (c, s) =
     (c + length (non_missing (map f vs)),
      foldl (\<lambda>s x. js_add s (Finite x)) s (non_missing (map f vs)))"
proof (induction vs arbitrary: c s)
  case Nil
  show ?case by simp
next
  case (Cons v vs)
  show ?case by (cases "f v") (simp_all add: Cons.IH)
qed

text \<open>The loop of \<open>d3.mean\<close> computes the double-precision mean of the non-missing
  values.\<close>

lemma d3_mean_eq: "d3_mean f vs = double_mean (non_missing (map f vs))"
  by (simp add: d3_mean_def mean_loop_eq double_mean_def double_sum_def)

lemma non_missing_empty_iff:
  "non_missing cs = [] \<longleftrightarrow> (\<forall>c\<in>set cs. c = Null \<or> c = NaN)"
proof (induction cs)
  case Nil
  show ?case by simp
next
  case (Cons c cs)
  then show ?case by (cases c) auto
qed

lemma d3_mean_None_iff:
  "d3_mean f vs = None \<longleftrightarrow> (\<forall>v\<in>set vs. f v = Null \<or> f v = NaN)"
  by (simp add: d3_mean_eq double_mean_def non_missing_empty_iff)

subsection \<open>Grouping\<close>

text \<open>The keys of the map stay distinct, and the group of a key is the sublist of the
  values with that key, in their order.\<close>

lemma keys_group_push:
  "map fst (group_push k v gs) = (if k \<in> fst ` set gs then map fst gs else map fst gs @ [k])"
  by (induction gs) (force+)

lemma distinct_group_push:
  "distinct (map fst gs) \<Longrightarrow> distinct (map fst (group_push k v gs))"
  by (simp add: keys_group_push)

lemma map_of_group_push:
  "map_of (group_push k v gs) k' =
     (if k' = k then Some (case map_of gs k of None \<Rightarrow> [v] | Some g \<Rightarrow> g @ [v])
      else map_of gs k')"
  by (induction gs) (auto)

lemma distinct_group_loop:
  "distinct (map fst gs) \<Longrightarrow> distinct (map fst (group_loop keyof vs gs))"
  by (induction vs arbitrary: gs) (simp_all add: distinct_group_push)

lemma map_of_group_loop:
  "map_of (group_loop keyof vs gs) k =
     (case map_of gs k of
        None \<Rightarrow> (if filter (\<lambda>v. keyof v = k) vs = [] then None
                 else Some (filter (\<lambda>v. keyof v = k) vs))
      | Some g \<Rightarrow> Some (g @ filter (\<lambda>v. keyof v = k) vs))"
proof (induction vs arbitrary: gs)
  case Nil
  show ?case by (simp split: option.splits)
next
  case (Cons v vs)
  show ?case
    by (simp add: Cons.IH map_of_group_push split: option.splits)
qed

lemma distinct_d3_group: "distinct (map fst (d3_group vs keyof))"
  by (simp add: d3_group_def distinct_group_loop)

lemma map_of_d3_group:
  "map_of (d3_group vs keyof) k =
     (if filter (\<lambda>v. keyof v = k) vs = [] then None else Some (filter (\<lambda>v. keyof v = k) vs))"
  by (simp add: d3_group_def map_of_group_loop)

lemma map_of_d3_rollups:
  "map_of (d3_rollups vs reduce keyof) k =
     (if filter (\<lambda>v. keyof v = k) vs = [] then None
      else Some (reduce (filter (\<lambda>v. keyof v = k) vs)))"
proof -
  have "map_of (map (\<lambda>(k, g). (k, reduce g)) gs) k = map_option reduce (map_of gs k)" for gs
    by (induction gs) auto
  then have "map_of (d3_rollups vs reduce keyof) k = map_option reduce (map_of (d3_group vs keyof) k)"
    unfolding d3_rollups_def .
  then show ?thesis by (simp add: map_of_d3_group)
qed

subsection \<open>The series by date\<close>

lemma byDate_alt:
  "byDate modisData v stateName =
     map (\<lambda>(timeMs, val). \<lparr>pdate = timeMs, pvalue = val\<rparr>)
       (d3_rollups (filter (stateFilter stateName) modisData)
          (\<lambda>g. d3_mean (\<lambda>d. getField d (field (VAR_CONFIG v))) g) date)"
  by (simp add: byDate_def stateFilter_def [abs_def])

lemma pdate_byDate:
  "map pdate (byDate modisData v stateName) =
     map fst (d3_group (filter (stateFilter stateName) modisData) date)"
  by (simp add: byDate_alt d3_rollups_def case_prod_beta comp_def)

lemma distinct_byDate: "distinct (map pdate (byDate modisData v stateName))"
  by (simp add: pdate_byDate distinct_d3_group)

lemma entries_byDate:
  "map (\<lambda>p. (pdate p, pvalue p)) (byDate modisData v stateName) =
     d3_rollups (filter (stateFilter stateName) modisData)
       (\<lambda>g. d3_mean (\<lambda>d. getField d (field (VAR_CONFIG v))) g) date"
  by (simp add: byDate_alt case_prod_beta comp_def)

lemma pvalue_byDate:
  assumes "p \<in> set (byDate modisData v stateName)"
  shows "pvalue p = d3_mean (\<lambda>d. getField d (field (VAR_CONFIG v)))
            (filter (\<lambda>d. date d = pdate p) (filter (stateFilter stateName) modisData))"
proof -
  from assms have "(pdate p, pvalue p) \<in> set (map (\<lambda>p. (pdate p, pvalue p)) (byDate modisData v stateName))"
    by force
  moreover have "distinct (map fst (map (\<lambda>p. (pdate p, pvalue p)) (byDate modisData v stateName)))"
    using distinct_byDate [of modisData v stateName] by (simp add: comp_def)
  ultimately have "map_of (map (\<lambda>p. (pdate p, pvalue p)) (byDate modisData v stateName)) (pdate p)
      = Some (pvalue p)"
    by (rule map_of_is_SomeI [rotated])
  then show ?thesis
    by (simp add: entries_byDate map_of_d3_rollups split: if_splits)
qed

text \<open>The empty string is falsy: as a state filter it keeps every row, like \<open>null\<close>.\<close>

lemma buildSeriesForState_empty_name:
  "buildSeriesForState modisData v (Some []) = buildSeriesForState modisData v None"
  by (simp add: buildSeriesForState_def byDate_def stateFilter_def)

lemma distinct_map_insort_key:
  "distinct (map f (insort_key f x xs)) \<longleftrightarrow> f x \<notin> f ` set xs \<and> distinct (map f xs)"
  by (induction xs) (auto simp: set_insort_key)

lemma distinct_map_sort_key: "distinct (map f (sort_key f xs)) \<longleftrightarrow> distinct (map f xs)"
  by (induction xs) (simp_all add: sort_key_simps distinct_map_insort_key)

subsection \<open>Extrema and ticks\<close>

lemma Min_le_Max: "finite S \<Longrightarrow> S \<noteq> {} \<Longrightarrow> Min S \<le> (Max S :: rat)"
  by (meson Max_ge Min_le all_not_in_conv order_trans)

lemma Min_insert2:
  "finite T \<Longrightarrow> Min (insert (min a x) T) = min x (Min (insert a (T :: rat set)))"
  by (cases "T = {}") (simp_all add: min.commute min.left_commute)

lemma Max_insert2:
  "finite T \<Longrightarrow> Max (insert (max a x) T) = max x (Max (insert a (T :: rat set)))"
  by (cases "T = {}") (simp_all add: max.commute max.left_commute)

lemma min_loop_eq:
  "min_loop vs m =
     (let S = set_option m \<union> set (non_missing vs) in if S = {} then None else Some (Min S))"
proof (induction vs arbitrary: m)
  case Nil
  show ?case by (cases m) simp_all
next
  case (Cons c vs)
  show ?case
  proof (cases c)
    case (Num x)
    show ?thesis
    proof (cases m)
      case None
      then show ?thesis by (simp add: Num Cons.IH)
    next
      case (Some a)
      have "(if a > x then Some x else Some a) = Some (min a x)" by (simp add: min_def)
      then show ?thesis by (simp add: Num Some Cons.IH Min_insert2)
    qed
  qed (simp_all add: Cons.IH)
qed

lemma max_loop_eq:
  "max_loop vs m =
     (let S = set_option m \<union> set (non_missing vs) in if S = {} then None else Some (Max S))"
proof (induction vs arbitrary: m)
  case Nil
  show ?case by (cases m) simp_all
next
  case (Cons c vs)
  show ?case
  proof (cases c)
    case (Num x)
    show ?thesis
    proof (cases m)
      case None
      then show ?thesis by (simp add: Num Cons.IH)
    next
      case (Some a)
      have "(if a < x then Some x else Some a) = Some (max a x)" by (simp add: max_def)
      then show ?thesis by (simp add: Num Some Cons.IH Max_insert2)
    qed
  qed (simp_all add: Cons.IH)
qed

lemma d3_min_eq:
  "d3_min vs = (if non_missing vs = [] then None else Some (Min (set (non_missing vs))))"
  by (simp add: d3_min_def min_loop_eq)

lemma d3_max_eq:
  "d3_max vs = (if non_missing vs = [] then None else Some (Max (set (non_missing vs))))"
  by (simp add: d3_max_def max_loop_eq)

lemma d3_min_le_max: "d3_min vs = Some a \<Longrightarrow> d3_max vs = Some b \<Longrightarrow> a \<le> b"
  by (auto simp: d3_min_eq d3_max_eq Min_le_Max split: if_splits)

text \<open>Whatever the power and the factor are, the increment of \<open>tickSpec\<close> is not zero,
  so the ticks between a minimum and a maximum ascend strictly.\<close>

lemma tickSpec_inc_nonzero_aux:
  "count \<noteq> 1 \<Longrightarrow> snd (snd (tickSpec start stop count)) \<noteq> 0"
  by (subst tickSpec.simps) (simp add: Let_def)

lemma tickSpec_inc_nonzero: "snd (snd (tickSpec start stop count)) \<noteq> 0"
proof (cases "count = 1")
  case False
  then show ?thesis by (rule tickSpec_inc_nonzero_aux)
next
  case True
  have "snd (snd (tickSpec start stop 2)) \<noteq> 0"
    by (rule tickSpec_inc_nonzero_aux) simp
  then show ?thesis
    unfolding True by (subst tickSpec.simps) (simp add: Let_def)
qed

lemma sorted_wrt_map_upt:
  assumes "\<And>i j. i < j \<Longrightarrow> f i < (f j :: rat)"
  shows "sorted_wrt (<) (map f [0..<n])"
proof -
  have "sorted_wrt (\<lambda>i j. f i < f j) [0..<n]"
    by (rule sorted_wrt_mono_rel [of _ "(<)"]) (simp_all add: assms)
  then show ?thesis by (simp add: sorted_wrt_map)
qed

lemma d3_ticks_sorted:
  assumes "a \<le> b"
  shows "sorted_wrt (<) (d3_ticks (Some a) (Some b) count)"
proof (cases "count > 0 \<and> a \<noteq> b")
  case False
  then show ?thesis by (auto simp: d3_ticks_def)
next
  case True
  with assms have ab: "a < b" by simp
  obtain i1 i2 inc where ts: "tickSpec a b count = (i1, i2, inc)"
    by (cases "tickSpec a b count") auto
  have nz: "inc \<noteq> 0" using tickSpec_inc_nonzero [of a b count] by (simp add: ts)
  show ?thesis
  proof (cases "inc < 0")
    case True
    have "sorted_wrt (<) (map (\<lambda>i. of_int (i1 + int i) / (- inc)) [0..<n])" for n
    proof (intro sorted_wrt_map_upt)
      fix i j :: nat
      assume "i < j"
      then have "(of_int (i1 + int i) :: rat) < of_int (i1 + int j)" by simp
      moreover have "0 < - inc" using True by simp
      ultimately show "of_int (i1 + int i) / (- inc) < of_int (i1 + int j) / (- inc)"
        by (rule divide_strict_right_mono)
    qed
    then show ?thesis
      using \<open>count > 0 \<and> a \<noteq> b\<close> ab True by (simp add: d3_ticks_def ts)
  next
    case False
    with nz have "0 < inc" by simp
    then have "sorted_wrt (<) (map (\<lambda>i. of_int (i1 + int i) * inc) [0..<n])" for n
      by (intro sorted_wrt_map_upt) simp
    then show ?thesis
      using \<open>count > 0 \<and> a \<noteq> b\<close> ab False by (simp add: d3_ticks_def ts)
  qed
qed

lemma d3_ticks_NaN [simp]: "d3_ticks None b count = []" "d3_ticks a None count = []"
  by (simp_all add: d3_ticks_def split: option.splits)

subsection \<open>The binary search of the threshold scale\<close>

lemma bisectRight_bounds:
  "lo \<le> hi \<Longrightarrow> lo \<le> bisectRight a x lo hi \<and> bisectRight a x lo hi \<le> hi"
proof (induction a x lo hi rule: bisectRight.induct)
  case (1 a x lo hi)
  show ?case
  proof (cases "lo < hi")
    case False
    with "1.prems" show ?thesis by (subst (1 2) bisectRight.simps) simp
  next
    case True
    let ?mid = "(lo + hi) div 2"
    have m: "lo \<le> ?mid" "?mid < hi" using True by auto
    show ?thesis
    proof (cases "a ! ?mid \<le> x")
      case le: True
      from "1.IH"(1) [OF True refl le] m
      have "?mid + 1 \<le> bisectRight a x (?mid + 1) hi \<and> bisectRight a x (?mid + 1) hi \<le> hi"
        by simp
      then show ?thesis using True le m by (subst (1 2) bisectRight.simps) (simp add: Let_def)
    next
      case gt: False
      from "1.IH"(2) [OF True refl gt] m
      have "lo \<le> bisectRight a x lo ?mid \<and> bisectRight a x lo ?mid \<le> ?mid"
        by simp
      then show ?thesis using True gt m by (subst (1 2) bisectRight.simps) (simp add: Let_def)
    qed
  qed
qed

text \<open>On a list sorted up to \<open>hi\<close>, everything the search leaves to its left is at most
  \<open>x\<close> and everything from its result up to \<open>hi\<close> is greater.\<close>

lemma bisectRight_sorted:
  assumes "sorted (take hi a)" "hi \<le> length a" "lo \<le> hi"
    and "\<forall>i<lo. a ! i \<le> x" and "\<forall>i. hi \<le> i \<and> i < hi0 \<longrightarrow> x < a ! i"
  shows "(\<forall>i < bisectRight a x lo hi. a ! i \<le> x)
       \<and> (\<forall>i. bisectRight a x lo hi \<le> i \<and> i < hi0 \<longrightarrow> x < a ! i)"
  using assms
proof (induction a x lo hi rule: bisectRight.induct)
  case (1 a x lo hi)
  show ?case
  proof (cases "lo < hi")
    case False
    with "1.prems" have "lo = hi" by simp
    with "1.prems" show ?thesis by (subst (1 2) bisectRight.simps) simp
  next
    case True
    let ?mid = "(lo + hi) div 2"
    have m: "lo \<le> ?mid" "?mid < hi" using True by auto
    have srt: "i \<le> j \<Longrightarrow> j < hi \<Longrightarrow> a ! i \<le> a ! j" for i j
      using "1.prems"(1,2) sorted_nth_mono [of "take hi a" i j] by simp
    show ?thesis
    proof (cases "a ! ?mid \<le> x")
      case le: True
      have left: "\<forall>i<?mid + 1. a ! i \<le> x"
      proof (intro allI impI)
        fix i assume "i < ?mid + 1"
        then have "a ! i \<le> a ! ?mid" using srt [of i ?mid] m by simp
        with le show "a ! i \<le> x" by simp
      qed
      have "(\<forall>i < bisectRight a x (?mid + 1) hi. a ! i \<le> x)
       \<and> (\<forall>i. bisectRight a x (?mid + 1) hi \<le> i \<and> i < hi0 \<longrightarrow> x < a ! i)"
        using "1.IH"(1) [OF True refl le "1.prems"(1,2) _ left "1.prems"(5)] m by simp
      then show ?thesis using True le by (subst (1 2) bisectRight.simps) (simp add: Let_def)
    next
      case gt: False
      have st: "sorted (take ?mid a)"
        using "1.prems"(1) m sorted_wrt_take [of "(\<le>)" "take hi a" ?mid] by (simp add: min_def)
      have right: "\<forall>i. ?mid \<le> i \<and> i < hi0 \<longrightarrow> x < a ! i"
      proof (intro allI impI)
        fix i assume i: "?mid \<le> i \<and> i < hi0"
        show "x < a ! i"
        proof (cases "i < hi")
          case True
          then have "a ! ?mid \<le> a ! i" using srt [of ?mid i] i by simp
          with gt show ?thesis by simp
        next
          case False
          with i "1.prems"(5) show ?thesis by simp
        qed
      qed
      have "(\<forall>i < bisectRight a x lo ?mid. a ! i \<le> x)
       \<and> (\<forall>i. bisectRight a x lo ?mid \<le> i \<and> i < hi0 \<longrightarrow> x < a ! i)"
        using "1.IH"(2) [OF True refl gt st _ _ "1.prems"(4) right] m "1.prems"(2) by simp
      then show ?thesis using True gt by (subst (1 2) bisectRight.simps) (simp add: Let_def)
    qed
  qed
qed

lemma scale_bin_mono:
  assumes srt: "sorted (sdomain sc)" and n: "nat (sn sc) \<le> length (sdomain sc)" and ab: "a \<le> b"
  shows "scale_bin sc a \<le> scale_bin sc b"
proof (rule ccontr)
  let ?n = "nat (sn sc)"
  let ?ra = "bisectRight (sdomain sc) a 0 ?n"
  let ?rb = "bisectRight (sdomain sc) b 0 ?n"
  assume "\<not> scale_bin sc a \<le> scale_bin sc b"
  then have lt: "?rb < ?ra" by (simp add: scale_bin_def)
  have st: "sorted (take ?n (sdomain sc))" using srt by (rule sorted_wrt_take)
  have A: "\<forall>i < ?ra. sdomain sc ! i \<le> a"
    using bisectRight_sorted [OF st n, of 0 a ?n] by simp
  have B: "\<forall>i. ?rb \<le> i \<and> i < ?n \<longrightarrow> b < sdomain sc ! i"
    using bisectRight_sorted [OF st n, of 0 b ?n] by simp
  have "?ra \<le> ?n" using bisectRight_bounds [of 0 ?n "sdomain sc" a] by simp
  with lt have "?rb < ?n" by simp
  with B have "b < sdomain sc ! ?rb" by simp
  moreover from A lt have "sdomain sc ! ?rb \<le> a" by simp
  ultimately show False using ab by simp
qed

text \<open>So the search counts the entries up to \<open>n\<close> that are at most \<open>x\<close>.\<close>

lemma bisectRight_count:
  assumes st: "sorted (take n a)" and n: "n \<le> length a"
  shows "bisectRight a x 0 n = length (filter (\<lambda>y. y \<le> x) (take n a))"
proof -
  let ?r = "bisectRight a x 0 n"
  have r: "?r \<le> n" using bisectRight_bounds [of 0 n a x] by simp
  have A: "\<forall>i < ?r. a ! i \<le> x" and B: "\<forall>i. ?r \<le> i \<and> i < n \<longrightarrow> x < a ! i"
    using bisectRight_sorted [OF st n, of 0 x n] by simp_all
  have split: "take n a = take ?r a @ drop ?r (take n a)"
    using r by (metis append_take_drop_id min.absorb1 take_take)
  have left: "filter (\<lambda>y. y \<le> x) (take ?r a) = take ?r a"
  proof (rule filter_True, rule ballI)
    fix y assume "y \<in> set (take ?r a)"
    then obtain i where "i < ?r" "i < length a" "y = a ! i"
      by (auto simp: in_set_conv_nth)
    with A show "y \<le> x" by simp
  qed
  have right: "filter (\<lambda>y. y \<le> x) (drop ?r (take n a)) = []"
  proof (rule filter_False, rule ballI)
    fix y assume "y \<in> set (drop ?r (take n a))"
    then obtain i where i: "i < length (drop ?r (take n a))" "y = drop ?r (take n a) ! i"
      by (auto simp: in_set_conv_nth)
    then have "?r + i < n" using n by simp
    moreover from i this n have "y = a ! (?r + i)" by simp
    ultimately show "\<not> y \<le> x" using B by (simp add: not_le)
  qed
  have "length (filter (\<lambda>y. y \<le> x) (take n a)) = length (take ?r a)"
    by (subst split) (simp add: left right)
  also have "\<dots> = ?r" using r n by simp
  finally show ?thesis by simp
qed

subsection \<open>The stored statistics\<close>

lemma computeVarStats_lookup:
  "computeVarStats modisData varStats key = Some (computeVarStats_entry modisData (VAR_CONFIG key))"
  by (cases key) (simp_all add: computeVarStats_def VAR_CONFIG_keys_def)

lemma sorted_thresholds:
  "sorted_wrt (<) (thresholds (computeVarStats_entry modisData cfg))"
proof -
  let ?vals = "filter (\<lambda>v. v \<noteq> Null \<and> v \<noteq> NaN) (map (\<lambda>d. getField d (field cfg)) modisData)"
  have "sorted_wrt (<) (d3_ticks (d3_min ?vals) (d3_max ?vals) 5)"
  proof (cases "d3_min ?vals")
    case None
    then show ?thesis by simp
  next
    case mn: (Some a)
    show ?thesis
    proof (cases "d3_max ?vals")
      case None
      then show ?thesis by simp
    next
      case mx: (Some b)
      from d3_min_le_max [OF mn mx] show ?thesis
        unfolding mn mx by (rule d3_ticks_sorted)
    qed
  qed
  then show ?thesis by (simp add: computeVarStats_entry_def Let_def)
qed

text \<open>The bin of a value is the number of thresholds (among the first five) that are at
  most the value: a value equal to a threshold is counted with the bin above it.\<close>

lemma scale_bin_entry:
  "scale_bin (scale (computeVarStats_entry modisData cfg)) x =
     length (filter (\<lambda>t. t \<le> x) (take 5 (thresholds (computeVarStats_entry modisData cfg))))"
proof -
  let ?st = "computeVarStats_entry modisData cfg"
  have len: "length (colors ?st) = 6"
    by (simp add: computeVarStats_entry_def Let_def slice1_def)
  have dom: "sdomain (scale ?st) = thresholds ?st" and
    n: "sn (scale ?st) = min (int (length (thresholds ?st))) (int (length (colors ?st)) - 1)"
    by (simp_all add: computeVarStats_entry_def Let_def scaleThreshold_def)
  have nn: "nat (sn (scale ?st)) = min (length (thresholds ?st)) 5"
    unfolding n len by simp
  have "sorted_wrt (<) (thresholds ?st)" by (rule sorted_thresholds)
  then have "sorted (thresholds ?st)" by (rule sorted_wrt_mono_rel [rotated]) simp
  then have "sorted (take (min (length (thresholds ?st)) 5) (thresholds ?st))"
    by (rule sorted_wrt_take)
  then have "bisectRight (thresholds ?st) x 0 (min (length (thresholds ?st)) 5) =
      length (filter (\<lambda>y. y \<le> x) (take (min (length (thresholds ?st)) 5) (thresholds ?st)))"
    by (rule bisectRight_count) simp
  moreover have "take (min (length (thresholds ?st)) 5) (thresholds ?st) = take 5 (thresholds ?st)"
    by (simp add: min_def)
  ultimately show ?thesis by (simp add: scale_bin_def dom nn)
qed

text \<open>The ticks may be more than five and may include both ends of the range.\<close>

lemma d3_ticks_zero_ten: "d3_ticks (Some 0) (Some 10) 5 = [0, 2, 4, 6, 8, 10]"
  by code_simp

text \<open>Without any value for a variable the stored object has no minimum, no maximum and
  no threshold; it is an object all the same.\<close>

lemma computeVarStats_all_missing:
  assumes "\<forall>d\<in>set modisData. getField d (field (VAR_CONFIG key)) = Null
             \<or> getField d (field (VAR_CONFIG key)) = NaN"
  shows "\<exists>st. computeVarStats modisData varStats key = Some st
           \<and> min_val st = None \<and> max_val st = None \<and> thresholds st = []
           \<and> length (colors st) = 6"
proof -
  have "filter (\<lambda>v. v \<noteq> Null \<and> v \<noteq> NaN)
          (map (\<lambda>d. getField d (field (VAR_CONFIG key))) modisData) = []"
    using assms by (auto simp: filter_empty_conv)
  then show ?thesis
    by (cases key)
      (simp_all add: computeVarStats_lookup computeVarStats_entry_def d3_min_def d3_max_def Let_def
        slice1_def)
qed

subsection \<open>The mean without rounding\<close>

text \<open>When no partial sum needs rounding, the double-precision sum is the exact sum.\<close>

lemma double_sum_snoc: "double_sum (xs @ [x]) = js_add (double_sum xs) (Finite x)"
  by (simp add: double_sum_def)

lemma double_sum_exact:
  "\<forall>k\<le>length xs. round_double (sum_list (take k xs)) = Finite (sum_list (take k xs))
   \<Longrightarrow> double_sum xs = Finite (sum_list xs)"
proof (induction xs rule: rev_induct)
  case Nil
  show ?case by (simp add: double_sum_def)
next
  case (snoc x xs)
  have "\<forall>k\<le>length xs. round_double (sum_list (take k xs)) = Finite (sum_list (take k xs))"
  proof (intro allI impI)
    fix k assume k: "k \<le> length xs"
    then have "k \<le> length (xs @ [x])" by simp
    with snoc.prems
    have "round_double (sum_list (take k (xs @ [x]))) = Finite (sum_list (take k (xs @ [x])))"
      by blast
    with k show "round_double (sum_list (take k xs)) = Finite (sum_list (take k xs))" by simp
  qed
  then have "double_sum xs = Finite (sum_list xs)" by (rule snoc.IH)
  moreover have "round_double (sum_list (xs @ [x])) = Finite (sum_list (xs @ [x]))"
    using snoc.prems [rule_format, of "length (xs @ [x])"] by simp
  ultimately show ?case by (simp add: double_sum_snoc)
qed

lemma double_mean_exact:
  assumes "\<forall>k\<le>length xs. round_double (sum_list (take k xs)) = Finite (sum_list (take k xs))"
    and "round_double (sum_list xs / of_nat (length xs)) = Finite (sum_list xs / of_nat (length xs))"
  shows "double_mean xs = map_option Finite (arithmetic_mean xs)"
  using assms(2) by (simp add: double_mean_def arithmetic_mean_def double_sum_exact [OF assms(1)])

text \<open>Evaluations of the mean used below.\<close>

lemma double_mean_5_7: "double_mean [5, 7] = Some (Finite 6)"
  by code_simp

lemma double_mean_fifths:
  "double_mean [decimal (1 / 5), decimal (2 / 5)] = Some (Finite (decimal (3 / 10) + 1 / 2 ^ 54))"
  by code_simp

lemma double_mean_nine_tenths:
  "double_mean [decimal (9 / 10)] = Some (Finite (decimal (9 / 10)))"
  by code_simp

section \<open>The claims\<close>

text \<open>
  Claim C1 (five thresholds strictly inside the range, and the example 0.1, 0.5, 0.9).
  For the three NDVI values 0.1, 0.5 and 0.9 the program computes the minimum 0.1, the
  maximum 0.9 and the thresholds 0.2, 0.4, 0.6, 0.8: they ascend strictly inside the
  range, but there are four of them, not the five that the claim and the comment in
  \<open>computeVarStats\<close> ask for.
\<close>

theorem computeVarStats_three_values:
  "map_option (\<lambda>st. (min_val st, max_val st, thresholds st))
     (computeVarStats
        [ndvi_row ''CA'' 2020 1 (Num (1 / 10)) 0, ndvi_row ''CA'' 2020 2 (Num (5 / 10)) 1,
         ndvi_row ''CA'' 2020 3 (Num (9 / 10)) 2] Map.empty ndvi)
   = Some (Some (1 / 10), Some (9 / 10), [1 / 5, 2 / 5, 3 / 5, 4 / 5])"
  unfolding computeVarStats_lookup by code_simp

text \<open>
  Claim C2 (a value equal to a threshold falls in the lower bin). With the NDVI
  values 0.5 and 5.5 the thresholds are 1 to 5 and there are six colours; the value 1,
  equal to the first threshold, gets the second colour \<open>colors[1]\<close>, not
  \<open>colors[0]\<close>: the scale puts a boundary value in the upper bin.
\<close>

theorem scale_at_threshold:
  "map_option (\<lambda>st. (thresholds st, colors st, scale_apply (scale st) 1))
     (computeVarStats
        [ndvi_row ''CA'' 2020 1 (Num (1 / 2)) 0, ndvi_row ''CA'' 2020 2 (Num (11 / 2)) 1]
        Map.empty ndvi)
   = Some ([1, 2, 3, 4, 5],
           [schemeGreens7 1, schemeGreens7 2, schemeGreens7 3, schemeGreens7 4,
            schemeGreens7 5, schemeGreens7 6],
           Some (schemeGreens7 2))"
  unfolding computeVarStats_lookup by code_simp

text \<open>
  Claim C3 (a variable without any value gets a null or undefined stats result). For
  a store whose only NDVI cell is missing, the entry of \<open>varStats\<close> is not \<open>undefined\<close>:
  \<open>computeVarStats\<close> stores an object whose minimum and maximum are \<open>undefined\<close> and
  whose list of thresholds is empty, where the claim asks for no stats object at all
  and the comment in \<open>computeVarStats\<close> for five cut points.
\<close>

theorem computeVarStats_no_data_not_null:
  "computeVarStats [ndvi_row ''Nevada'' 2020 3 Null 0] Map.empty ndvi \<noteq> None
   \<and> map_option (\<lambda>st. (min_val st, max_val st, thresholds st))
        (computeVarStats [ndvi_row ''Nevada'' 2020 3 Null 0] Map.empty ndvi)
      = Some (None, None, [])"
  unfolding computeVarStats_lookup by code_simp

text \<open>
  Claim C4, as amended: a state that has rows at the selected year and month, none of
  them with a value for the field, is present in \<open>valuesByState\<close> with the value
  \<open>undefined\<close> (never zero or another number), and \<open>updateMap\<close> gives it the default
  fill, as it does for a state without entry.
\<close>

theorem valuesByState_all_missing:
  assumes "\<exists>d\<in>set modisData. state d = s \<and> year d = y \<and> month d = m"
    and "\<forall>d\<in>set modisData. state d = s \<and> year d = y \<and> month d = m \<longrightarrow>
           getField d (field (VAR_CONFIG v)) = Null \<or> getField d (field (VAR_CONFIG v)) = NaN"
  shows "map_of (valuesByState modisData v y m) s = Some None
       \<and> mapFill stats (valuesByState modisData v y m) s = Some (Hex ''#020617'')"
proof -
  let ?grp = "filter (\<lambda>d. state d = s) (filter (\<lambda>d. year d = y \<and> month d = m) modisData)"
  have ne: "?grp \<noteq> []" using assms(1) by (auto simp: filter_empty_conv)
  have "d3_mean (\<lambda>d. getField d (field (VAR_CONFIG v))) ?grp = None"
    using assms(2) by (auto simp: d3_mean_None_iff)
  with ne have "map_of (valuesByState modisData v y m) s = Some None"
    by (simp add: valuesByState_def d3_rollup_def map_of_d3_rollups Let_def)
  then show ?thesis by (simp add: mapFill_def)
qed

theorem valuesByState_all_missing_witness:
  "map_of (valuesByState [ndvi_row ''Nevada'' 2020 3 Null 0, ndvi_row ''Utah'' 2020 3 (Num 0) 0]
        ndvi 2020 3) ''Nevada'' = Some None
   \<and> mapFill (computeVarStats_entry [] (VAR_CONFIG ndvi))
        (valuesByState [ndvi_row ''Nevada'' 2020 3 Null 0, ndvi_row ''Utah'' 2020 3 (Num 0) 0]
           ndvi 2020 3) ''Nevada'' = Some (Hex ''#020617'')"
proof -
  let ?store = "[ndvi_row ''Nevada'' 2020 3 Null 0, ndvi_row ''Utah'' 2020 3 (Num 0) 0]"
  have h1: "\<exists>d\<in>set ?store. state d = ''Nevada'' \<and> year d = 2020 \<and> month d = 3"
    by (simp add: ndvi_row_def)
  have h2: "\<forall>d\<in>set ?store. state d = ''Nevada'' \<and> year d = 2020 \<and> month d = 3 \<longrightarrow>
        getField d (field (VAR_CONFIG ndvi)) = Null \<or> getField d (field (VAR_CONFIG ndvi)) = NaN"
    by (simp add: ndvi_row_def getField_def)
  from valuesByState_all_missing [OF h1 h2, of "computeVarStats_entry [] (VAR_CONFIG ndvi)"]
  show ?thesis .
qed

text \<open>The claim as stated fails: the group of Nevada, whose only cell is missing, has an
  entry in the map.\<close>

theorem valuesByState_all_missing_present:
  "map_of (valuesByState [ndvi_row ''Nevada'' 2020 3 Null 0] ndvi 2020 3) ''Nevada'' = Some None"
  by code_simp

text \<open>
  Claim C5, as amended: the value the aggregator gives a group is the double-precision
  mean of the non-missing values of the group alone, in the order of the rows: their
  sum, rounded to a double after each addition, divided by their number and rounded
  again. Missing values are neither counted nor added. This holds for the groups by
  state of \<open>valuesByState\<close> and for the groups by date of \<open>buildSeriesForState\<close>. The
  value is the arithmetic mean whenever no sum and not the quotient needs rounding;
  the values 5, missing, 7 have the mean 6.
\<close>

theorem aggregator_mean_non_missing:
  "map_of (valuesByState modisData v y m) s =
     (let grp = filter (\<lambda>d. state d = s) (filter (\<lambda>d. year d = y \<and> month d = m) modisData)
      in if grp = [] then None
         else Some (double_mean
                (non_missing (map (\<lambda>d. getField d (field (VAR_CONFIG v))) grp))))
   \<and> map_of (map (\<lambda>p. (pdate p, pvalue p)) (byDate modisData v stateName)) t =
     (let grp = filter (\<lambda>d. date d = t) (filter (stateFilter stateName) modisData)
      in if grp = [] then None
         else Some (double_mean
                (non_missing (map (\<lambda>d. getField d (field (VAR_CONFIG v))) grp))))
   \<and> ((\<forall>k\<le>length xs. round_double (sum_list (take k xs)) = Finite (sum_list (take k xs)))
        \<and> round_double (sum_list xs / of_nat (length xs))
            = Finite (sum_list xs / of_nat (length xs))
        \<longrightarrow> double_mean xs = map_option Finite (arithmetic_mean xs))
   \<and> d3_mean (\<lambda>c. c) [Num 5, Null, Num 7] = Some (Finite 6)"
proof (intro conjI impI)
  show "map_of (valuesByState modisData v y m) s =
     (let grp = filter (\<lambda>d. state d = s) (filter (\<lambda>d. year d = y \<and> month d = m) modisData)
      in if grp = [] then None
         else Some (double_mean
                (non_missing (map (\<lambda>d. getField d (field (VAR_CONFIG v))) grp))))"
    by (simp add: valuesByState_def d3_rollup_def map_of_d3_rollups d3_mean_eq Let_def)
  show "map_of (map (\<lambda>p. (pdate p, pvalue p)) (byDate modisData v stateName)) t =
     (let grp = filter (\<lambda>d. date d = t) (filter (stateFilter stateName) modisData)
      in if grp = [] then None
         else Some (double_mean
                (non_missing (map (\<lambda>d. getField d (field (VAR_CONFIG v))) grp))))"
    by (simp add: entries_byDate map_of_d3_rollups d3_mean_eq Let_def)
  show "d3_mean (\<lambda>c. c) [Num 5, Null, Num 7] = Some (Finite 6)"
    by (simp add: d3_mean_eq double_mean_5_7)
next
  assume "(\<forall>k\<le>length xs. round_double (sum_list (take k xs)) = Finite (sum_list (take k xs)))
        \<and> round_double (sum_list xs / of_nat (length xs))
            = Finite (sum_list xs / of_nat (length xs))"
  then show "double_mean xs = map_option Finite (arithmetic_mean xs)"
    using double_mean_exact [of xs] by blast
qed

theorem aggregator_mean_non_missing_witness:
  "map_of (valuesByState
       [ndvi_row ''CA'' 2020 1 (Num 5) 0, ndvi_row ''CA'' 2020 1 Null 0,
        ndvi_row ''CA'' 2020 1 (Num 7) 0] ndvi 2020 1) ''CA'' = Some (Some (Finite 6))"
  using aggregator_mean_non_missing
    [of "[ndvi_row ''CA'' 2020 1 (Num 5) 0, ndvi_row ''CA'' 2020 1 Null 0,
          ndvi_row ''CA'' 2020 1 (Num 7) 0]" ndvi 2020 1 "''CA''" None 0 "[]"]
  by (simp add: ndvi_row_def getField_def double_mean_5_7)

text \<open>The claim as stated fails: for the three NDVI values 0.1, 0.2 and 0.3 of one state
  the aggregated value is 0.20000000000000004, which is neither their arithmetic mean
  nor the double nearest to it (0.2), and the rows in the opposite order give another
  value.\<close>

theorem aggregator_mean_rounds:
  "map_of (valuesByState
       [ndvi_row ''CA'' 2020 1 (Num (decimal (1 / 10))) 0,
        ndvi_row ''CA'' 2020 1 (Num (decimal (2 / 10))) 0,
        ndvi_row ''CA'' 2020 1 (Num (decimal (3 / 10))) 0] ndvi 2020 1) ''CA''
     \<noteq> Some (map_option Finite
          (arithmetic_mean [decimal (1 / 10), decimal (2 / 10), decimal (3 / 10)]))
   \<and> map_of (valuesByState
       [ndvi_row ''CA'' 2020 1 (Num (decimal (1 / 10))) 0,
        ndvi_row ''CA'' 2020 1 (Num (decimal (2 / 10))) 0,
        ndvi_row ''CA'' 2020 1 (Num (decimal (3 / 10))) 0] ndvi 2020 1) ''CA''
     \<noteq> Some (Some (round_double
          ((decimal (1 / 10) + decimal (2 / 10) + decimal (3 / 10)) / 3)))
   \<and> map_of (valuesByState
       [ndvi_row ''CA'' 2020 1 (Num (decimal (1 / 10))) 0,
        ndvi_row ''CA'' 2020 1 (Num (decimal (2 / 10))) 0,
        ndvi_row ''CA'' 2020 1 (Num (decimal (3 / 10))) 0] ndvi 2020 1) ''CA''
     \<noteq> map_of (valuesByState
       [ndvi_row ''CA'' 2020 1 (Num (decimal (3 / 10))) 0,
        ndvi_row ''CA'' 2020 1 (Num (decimal (2 / 10))) 0,
        ndvi_row ''CA'' 2020 1 (Num (decimal (1 / 10))) 0] ndvi 2020 1) ''CA''"
  by code_simp


text \<open>
  Claim C6: no point of the series of \<open>buildSeriesForState\<close> has an undefined value, and
  a date whose rows (among those the state filter keeps) have no value for the field
  is the date of no point.
\<close>

theorem buildSeriesForState_drops_empty_groups:
  "(\<forall>p\<in>set (buildSeriesForState modisData v stateName). pvalue p \<noteq> None)
   \<and> ((\<forall>d\<in>set modisData. stateFilter stateName d \<and> date d = t \<longrightarrow>
          getField d (field (VAR_CONFIG v)) = Null \<or> getField d (field (VAR_CONFIG v)) = NaN)
        \<longrightarrow> t \<notin> pdate ` set (buildSeriesForState modisData v stateName))"
proof (intro conjI impI)
  show "\<forall>p\<in>set (buildSeriesForState modisData v stateName). pvalue p \<noteq> None"
    by (simp add: buildSeriesForState_def)
next
  assume miss: "\<forall>d\<in>set modisData. stateFilter stateName d \<and> date d = t \<longrightarrow>
          getField d (field (VAR_CONFIG v)) = Null \<or> getField d (field (VAR_CONFIG v)) = NaN"
  show "t \<notin> pdate ` set (buildSeriesForState modisData v stateName)"
  proof
    assume "t \<in> pdate ` set (buildSeriesForState modisData v stateName)"
    then obtain p where p: "p \<in> set (byDate modisData v stateName)" "pvalue p \<noteq> None" "pdate p = t"
      by (auto simp: buildSeriesForState_def)
    from pvalue_byDate [OF p(1)] p(2,3)
    have "d3_mean (\<lambda>d. getField d (field (VAR_CONFIG v)))
            (filter (\<lambda>d. date d = t) (filter (stateFilter stateName) modisData)) \<noteq> None"
      by simp
    then show False using miss by (auto simp: d3_mean_None_iff)
  qed
qed

theorem buildSeriesForState_drops_empty_groups_witness:
  "7 \<notin> pdate ` set (buildSeriesForState
        [ndvi_row ''CA'' 2020 1 (Num 5) 0, ndvi_row ''CA'' 2020 2 Null 7,
         ndvi_row ''NY'' 2020 2 Null 7] ndvi None)
   \<and> map pdate (buildSeriesForState
        [ndvi_row ''CA'' 2020 1 (Num 5) 0, ndvi_row ''CA'' 2020 2 Null 7,
         ndvi_row ''NY'' 2020 2 Null 7] ndvi None) = [0]"
proof -
  let ?store = "[ndvi_row ''CA'' 2020 1 (Num 5) 0, ndvi_row ''CA'' 2020 2 Null 7,
               ndvi_row ''NY'' 2020 2 Null 7]"
  have h: "\<forall>d\<in>set ?store. stateFilter None d \<and> date d = 7 \<longrightarrow>
        getField d (field (VAR_CONFIG ndvi)) = Null \<or> getField d (field (VAR_CONFIG ndvi)) = NaN"
    by (simp add: ndvi_row_def getField_def)
  have "7 \<notin> pdate ` set (buildSeriesForState ?store ndvi None)"
    using buildSeriesForState_drops_empty_groups [of ?store ndvi None 7] h by blast
  moreover have "map pdate (buildSeriesForState ?store ndvi None) = [0]"
    by code_simp
  ultimately show ?thesis by simp
qed

text \<open>
  Claim C7: for every store and every state filter the series of
  \<open>buildSeriesForState\<close> is sorted by date, ascending, and no two points have the same
  date.
\<close>

theorem buildSeriesForState_sorted_distinct:
  "sorted (map pdate (buildSeriesForState modisData v stateName))
   \<and> distinct (map pdate (buildSeriesForState modisData v stateName))"
proof
  show "sorted (map pdate (buildSeriesForState modisData v stateName))"
    by (simp add: buildSeriesForState_def)
  have "distinct (map pdate (filter (\<lambda>d. pvalue d \<noteq> None \<and> pvalue d \<noteq> Some NotANumber)
            (byDate modisData v stateName)))"
    using distinct_byDate [of modisData v stateName] by (rule distinct_map_filter)
  then show "distinct (map pdate (buildSeriesForState modisData v stateName))"
    unfolding buildSeriesForState_def by (simp only: distinct_map_sort_key)
qed

theorem buildSeriesForState_sorted_distinct_witness:
  "sorted (map pdate (buildSeriesForState
       [ndvi_row ''CA'' 2020 2 (Num 5) 7, ndvi_row ''CA'' 2020 1 (Num 3) 0,
        ndvi_row ''NY'' 2020 2 (Num 1) 7] ndvi None))
   \<and> distinct (map pdate (buildSeriesForState
       [ndvi_row ''CA'' 2020 2 (Num 5) 7, ndvi_row ''CA'' 2020 1 (Num 3) 0,
        ndvi_row ''NY'' 2020 2 (Num 1) 7] ndvi None))"
  by (rule buildSeriesForState_sorted_distinct)

text \<open>
  Claim C8, as amended: for a store of three rows (CA, 2020, 1, NDVI 0.2),
  (CA, 2020, 1, NDVI 0.4) and (NY, 2020, 1, NDVI 0.9), whatever their other columns,
  \<open>valuesByState\<close> for NDVI, 2020 and month 1 has exactly two entries: CA with
  0.30000000000000004, the double \<open>(0.2 + 0.4) / 2\<close>, which is one quantum
  (\<open>1 / 2 ^ 54\<close>) above the double 0.3, and NY with 0.9.
\<close>

theorem valuesByState_example:
  assumes "state r1 = ''CA''" "year r1 = 2020" "month r1 = 1" "NDVI r1 = Num (decimal (2 / 10))"
    and "state r2 = ''CA''" "year r2 = 2020" "month r2 = 1" "NDVI r2 = Num (decimal (4 / 10))"
    and "state r3 = ''NY''" "year r3 = 2020" "month r3 = 1" "NDVI r3 = Num (decimal (9 / 10))"
  shows "valuesByState [r1, r2, r3] ndvi 2020 1 =
           [(''CA'', Some (Finite (decimal (3 / 10) + 1 / 2 ^ 54))),
            (''NY'', Some (Finite (decimal (9 / 10))))]"
proof -
  have "valuesByState [r1, r2, r3] ndvi 2020 1 =
          [(''CA'', double_mean [decimal (1 / 5), decimal (2 / 5)]),
           (''NY'', double_mean [decimal (9 / 10)])]"
    using assms
    by (simp add: valuesByState_def d3_rollup_def d3_rollups_def d3_group_def d3_mean_eq
        getField_def)
  then show ?thesis by (simp only: double_mean_fifths double_mean_nine_tenths)
qed

theorem valuesByState_example_witness:
  "valuesByState
     [ndvi_row ''CA'' 2020 1 (Num (decimal (2 / 10))) 0,
      ndvi_row ''CA'' 2020 1 (Num (decimal (4 / 10))) 0,
      ndvi_row ''NY'' 2020 1 (Num (decimal (9 / 10))) 0] ndvi 2020 1
   = [(''CA'', Some (Finite (decimal (3 / 10) + 1 / 2 ^ 54))),
      (''NY'', Some (Finite (decimal (9 / 10))))]"
  by (rule valuesByState_example) (simp_all add: ndvi_row_def)

text \<open>The claim as stated fails: at its own input the value of CA is not 0.3, neither the
  double that the literal 0.3 denotes nor the exact three tenths.\<close>

theorem valuesByState_example_not_exact:
  "valuesByState
     [ndvi_row ''CA'' 2020 1 (Num (decimal (2 / 10))) 0,
      ndvi_row ''CA'' 2020 1 (Num (decimal (4 / 10))) 0,
      ndvi_row ''NY'' 2020 1 (Num (decimal (9 / 10))) 0] ndvi 2020 1
     \<noteq> [(''CA'', Some (Finite (decimal (3 / 10)))), (''NY'', Some (Finite (decimal (9 / 10))))]
   \<and> valuesByState
     [ndvi_row ''CA'' 2020 1 (Num (decimal (2 / 10))) 0,
      ndvi_row ''CA'' 2020 1 (Num (decimal (4 / 10))) 0,
      ndvi_row ''NY'' 2020 1 (Num (decimal (9 / 10))) 0] ndvi 2020 1
     \<noteq> [(''CA'', Some (Finite (3 / 10))), (''NY'', Some (Finite (9 / 10)))]"
  by code_simp


text \<open>
  Claim C9: the scale that \<open>computeVarStats\<close> stores is monotonic: for \<open>a \<le> b\<close> the bin
  of \<open>a\<close> is at most the bin of \<open>b\<close>.
\<close>

theorem scale_bin_monotone:
  assumes "computeVarStats modisData varStats key = Some st" and "a \<le> b"
  shows "scale_bin (scale st) a \<le> scale_bin (scale st) b"
proof -
  have st: "st = computeVarStats_entry modisData (VAR_CONFIG key)"
    using assms(1) by (simp add: computeVarStats_lookup)
  have dom: "sdomain (scale st) = thresholds st" and
    n: "sn (scale st) = min (int (length (thresholds st))) (int (length (colors st)) - 1)"
    by (simp_all add: st computeVarStats_entry_def Let_def scaleThreshold_def)
  have "sorted_wrt (<) (thresholds st)" unfolding st by (rule sorted_thresholds)
  then have "sorted (sdomain (scale st))"
    unfolding dom by (rule sorted_wrt_mono_rel [rotated]) simp
  moreover have "nat (sn (scale st)) \<le> length (sdomain (scale st))"
    unfolding dom n by simp
  ultimately show ?thesis using assms(2) by (rule scale_bin_mono)
qed

theorem scale_bin_monotone_witness:
  "computeVarStats [ndvi_row ''CA'' 2020 1 (Num (1 / 10)) 0, ndvi_row ''CA'' 2020 2 (Num (9 / 10)) 1]
      Map.empty ndvi
     = Some (computeVarStats_entry
         [ndvi_row ''CA'' 2020 1 (Num (1 / 10)) 0, ndvi_row ''CA'' 2020 2 (Num (9 / 10)) 1]
         (VAR_CONFIG ndvi))
   \<and> (3 / 10 :: rat) \<le> 7 / 10
   \<and> scale_bin (scale (computeVarStats_entry
         [ndvi_row ''CA'' 2020 1 (Num (1 / 10)) 0, ndvi_row ''CA'' 2020 2 (Num (9 / 10)) 1]
         (VAR_CONFIG ndvi))) (3 / 10)
     \<le> scale_bin (scale (computeVarStats_entry
         [ndvi_row ''CA'' 2020 1 (Num (1 / 10)) 0, ndvi_row ''CA'' 2020 2 (Num (9 / 10)) 1]
         (VAR_CONFIG ndvi))) (7 / 10)"
proof -
  let ?store = "[ndvi_row ''CA'' 2020 1 (Num (1 / 10)) 0, ndvi_row ''CA'' 2020 2 (Num (9 / 10)) 1]"
  have h1: "computeVarStats ?store Map.empty ndvi
     = Some (computeVarStats_entry ?store (VAR_CONFIG ndvi))"
    by (rule computeVarStats_lookup)
  have h2: "(3 / 10 :: rat) \<le> 7 / 10" by simp
  from scale_bin_monotone [OF h1 h2] h1 h2 show ?thesis by blast
qed

text \<open>
  Claim C10: for a state name (a non-empty string) that is the state of no row,
  \<open>buildSeriesForState\<close> returns the empty series.
\<close>

theorem buildSeriesForState_unknown_state:
  assumes "s \<noteq> []" and "s \<notin> state ` set modisData"
  shows "buildSeriesForState modisData v (Some s) = []"
proof -
  have "filter (\<lambda>d. stateFilter (Some s) d) modisData = []"
    using assms by (auto simp: filter_empty_conv stateFilter_def)
  then show ?thesis
    by (simp add: buildSeriesForState_def byDate_def d3_rollups_def d3_group_def)
qed

theorem buildSeriesForState_unknown_state_witness:
  "''Texas'' \<noteq> [] \<and> ''Texas'' \<notin> state ` set [ndvi_row ''CA'' 2020 1 (Num 5) 0]
   \<and> buildSeriesForState [ndvi_row ''CA'' 2020 1 (Num 5) 0] ndvi (Some ''Texas'') = []"
proof -
  have h1: "''Texas'' \<noteq> []" by simp
  have h2: "''Texas'' \<notin> state ` set [ndvi_row ''CA'' 2020 1 (Num 5) 0]"
    by (simp add: ndvi_row_def)
  from buildSeriesForState_unknown_state [OF h1 h2, of ndvi] h1 h2 show ?thesis by blast
qed

end
